theory Spec2Isabelle
  imports Complex_Main
begin

section \<open>Numeric values\<close>

text \<open>
  The program computes with IEEE double precision numbers (Python \<open>float\<close>, numpy
  \<open>float64\<close>). A value is an exact real number, the negative zero, an infinity or
  \<open>NaN\<close>; \<open>Fin 0\<close> is the positive zero. The operations of this section are the exact
  ones: rounding and overflow of finite results are left out of them. A zero among the
  inputs of the program is the positive zero.
\<close>

datatype fval = Fin real | NZero | PInf | NInf | NaN

datatype error = ZeroDivisionError | IndexError | RuntimeError string

text \<open>The sign bit, the zeros, the infinities and the number of a finite value.\<close>

fun is_neg :: "fval \<Rightarrow> bool" where
  "is_neg (Fin x) = (x < 0)"
| "is_neg NZero = True"
| "is_neg PInf = False"
| "is_neg NInf = True"
| "is_neg NaN = False"

fun is_zero :: "fval \<Rightarrow> bool" where
  "is_zero (Fin x) = (x = 0)"
| "is_zero NZero = True"
| "is_zero PInf = False"
| "is_zero NInf = False"
| "is_zero NaN = False"

fun is_inf :: "fval \<Rightarrow> bool" where
  "is_inf (Fin x) = False"
| "is_inf NZero = False"
| "is_inf PInf = True"
| "is_inf NInf = True"
| "is_inf NaN = False"

fun fin_val :: "fval \<Rightarrow> real" where
  "fin_val (Fin x) = x"
| "fin_val NZero = 0"
| "fin_val PInf = 0"
| "fin_val NInf = 0"
| "fin_val NaN = 0"

text \<open>
  The zero and the infinity of a product or quotient: negative when exactly one of the
  two operands is negative.
\<close>

definition signed_zero :: "bool \<Rightarrow> bool \<Rightarrow> fval" where
  "signed_zero neg1 neg2 = (if neg1 = neg2 then Fin 0 else NZero)"

definition signed_inf :: "bool \<Rightarrow> bool \<Rightarrow> fval" where
  "signed_inf neg1 neg2 = (if neg1 = neg2 then PInf else NInf)"

fun fneg :: "fval \<Rightarrow> fval" where
  "fneg (Fin x) = (if x = 0 then NZero else Fin (- x))"
| "fneg NZero = Fin 0"
| "fneg PInf = NInf"
| "fneg NInf = PInf"
| "fneg NaN = NaN"

text \<open>A sum that is zero is the positive zero, except for the sum of two negative zeros.\<close>

fun fadd :: "fval \<Rightarrow> fval \<Rightarrow> fval" where
  "fadd NaN _ = NaN"
| "fadd _ NaN = NaN"
| "fadd (Fin x) (Fin y) = Fin (x + y)"
| "fadd (Fin x) NZero = Fin x"
| "fadd NZero (Fin y) = Fin y"
| "fadd NZero NZero = NZero"
| "fadd PInf NInf = NaN"
| "fadd NInf PInf = NaN"
| "fadd PInf _ = PInf"
| "fadd _ PInf = PInf"
| "fadd NInf _ = NInf"
| "fadd _ NInf = NInf"

definition fsub :: "fval \<Rightarrow> fval \<Rightarrow> fval" where
  "fsub a b = fadd a (fneg b)"

definition fmul :: "fval \<Rightarrow> fval \<Rightarrow> fval" where
  "fmul a b =
     (if a = NaN \<or> b = NaN then NaN
      else if (is_inf a \<and> is_zero b) \<or> (is_zero a \<and> is_inf b) then NaN
      else if is_inf a \<or> is_inf b then signed_inf (is_neg a) (is_neg b)
      else if is_zero a \<or> is_zero b then signed_zero (is_neg a) (is_neg b)
      else Fin (fin_val a * fin_val b))"

text \<open>
  numpy's division: dividing by a zero gives an infinity or \<open>NaN\<close> (and a warning), never
  an exception.
\<close>

definition np_div :: "fval \<Rightarrow> fval \<Rightarrow> fval" where
  "np_div a b =
     (if a = NaN \<or> b = NaN then NaN
      else if (is_inf a \<and> is_inf b) \<or> (is_zero a \<and> is_zero b) then NaN
      else if is_inf a \<or> is_zero b then signed_inf (is_neg a) (is_neg b)
      else if is_inf b \<or> is_zero a then signed_zero (is_neg a) (is_neg b)
      else Fin (fin_val a / fin_val b))"

text \<open>Python's \<open>/\<close> on two Python floats: a zero divisor raises \<open>ZeroDivisionError\<close>.\<close>

definition py_div :: "fval \<Rightarrow> fval \<Rightarrow> error + fval" where
  "py_div a b = (if is_zero b then Inl ZeroDivisionError else Inr (np_div a b))"

text \<open>\<open>np.sqrt\<close>: a negative argument gives \<open>NaN\<close> (and a warning).\<close>

fun np_sqrt :: "fval \<Rightarrow> fval" where
  "np_sqrt (Fin x) = (if x < 0 then NaN else Fin (sqrt x))"
| "np_sqrt NZero = NZero"
| "np_sqrt PInf = PInf"
| "np_sqrt NInf = NaN"
| "np_sqrt NaN = NaN"

text \<open>
  The comparison \<open>a > b\<close>: false whenever an operand is \<open>NaN\<close>; the two zeros are
  equal.
\<close>

fun fgt :: "fval \<Rightarrow> fval \<Rightarrow> bool" where
  "fgt NaN _ = False"
| "fgt _ NaN = False"
| "fgt (Fin x) (Fin y) = (x > y)"
| "fgt (Fin x) NZero = (x > 0)"
| "fgt NZero (Fin y) = (0 > y)"
| "fgt NZero NZero = False"
| "fgt PInf PInf = False"
| "fgt PInf _ = True"
| "fgt _ PInf = False"
| "fgt NInf _ = False"
| "fgt _ NInf = True"

text \<open>The comparison \<open>a <= b\<close>: false whenever an operand is \<open>NaN\<close>.\<close>

fun fle :: "fval \<Rightarrow> fval \<Rightarrow> bool" where
  "fle NaN _ = False"
| "fle _ NaN = False"
| "fle (Fin x) (Fin y) = (x \<le> y)"
| "fle (Fin x) NZero = (x \<le> 0)"
| "fle NZero (Fin y) = (0 \<le> y)"
| "fle NZero NZero = True"
| "fle NInf _ = True"
| "fle _ PInf = True"
| "fle PInf _ = False"
| "fle _ NInf = False"

section \<open>Permittivity\<close>

text \<open>Speed of light in vacuum (m/s).\<close>

definition C0 :: real where
  "C0 = 299792458"

text \<open>
  \<open>microstrip_eps_r(eps_eff, h, w)\<close>: \<open>eps_eff\<close> is the array of the effective
  permittivities of all modes, \<open>h\<close> and \<open>w\<close> are Python floats. \<open>12.0 * h / w\<close> is
  Python arithmetic; everything after \<open>np.sqrt\<close> is numpy arithmetic, the last line
  elementwise over the array.
\<close>

definition microstrip_eps_r :: "fval list \<Rightarrow> real \<Rightarrow> real \<Rightarrow> error + fval list" where
  "microstrip_eps_r eps_eff h w =
     (case py_div (Fin (12 * h)) (Fin w) of
        Inl e \<Rightarrow> Inl e
      | Inr q \<Rightarrow>
          (let a = np_div (Fin 1) (np_sqrt (fadd (Fin 1) q))
           in Inr (map (\<lambda>e. np_div (fsub (fadd (fmul (Fin 2) e) a) (Fin 1)) (fadd (Fin 1) a))
                       eps_eff)))"

text \<open>
  \<open>eps_eff = (C0 * n_modes / (freqs * L)) ** 2\<close> of \<open>main\<close>, elementwise over the mode
  numbers and the resonant frequencies.
\<close>

definition effective_permittivity :: "int list \<Rightarrow> real list \<Rightarrow> fval \<Rightarrow> fval list" where
  "effective_permittivity n_modes freqs L =
     map (\<lambda>(n, f). let r = np_div (Fin (C0 * of_int n)) (fmul (Fin f) L) in fmul r r)
         (zip n_modes freqs)"

text \<open>
  \<open>estimate_effective_length(eps_known, freq_Hz, mode_n)\<close>: the divisor is a numpy
  value, so the division is numpy's and never raises.
\<close>

definition estimate_effective_length :: "real \<Rightarrow> real \<Rightarrow> int \<Rightarrow> fval" where
  "estimate_effective_length eps_known freq_Hz mode_n =
     np_div (Fin (C0 * of_int mode_n)) (fmul (Fin freq_Hz) (np_sqrt (Fin eps_known)))"

section \<open>Peak detection\<close>

text \<open>Reading a numpy array at a non-negative index: out of range raises \<open>IndexError\<close>.\<close>

definition np_index :: "'a list \<Rightarrow> nat \<Rightarrow> error + 'a" where
  "np_index xs i = (if i < length xs then Inr (xs ! i) else Inl IndexError)"

text \<open>Reading a numpy array at an array of indices (\<open>freq[peaks]\<close>).\<close>

fun take_indices :: "'a list \<Rightarrow> nat list \<Rightarrow> error + 'a list" where
  "take_indices xs [] = Inr []"
| "take_indices xs (i # idxs) =
     (case np_index xs i of
        Inl e \<Rightarrow> Inl e
      | Inr v \<Rightarrow> (case take_indices xs idxs of Inl e \<Rightarrow> Inl e | Inr vs \<Rightarrow> Inr (v # vs)))"

text \<open>
  \<open>np.median\<close>: the middle element of the sorted samples, the mean of the two middle
  elements for an even number of samples, \<open>NaN\<close> for no sample.
\<close>

definition median :: "real list \<Rightarrow> fval" where
  "median xs =
     (let s = sort xs; n = length xs
      in if n = 0 then NaN
         else if n mod 2 = 1 then Fin (s ! (n div 2))
         else Fin ((s ! (n div 2 - 1) + s ! (n div 2)) / 2))"

text \<open>
  \<open>scipy.signal.find_peaks(x, height=threshold)\<close> is a library routine; it is modelled
  after the library's algorithm. Its first pass walks the samples from index 1 to the last
  but one: where a sample is higher than the one before, it looks ahead over the samples
  equal to it, and if the next different sample is lower it records the middle of the run
  of equal samples (rounded down) and goes on behind the run. \<open>skip_equal\<close> is the look
  ahead, \<open>local_maxima_from\<close> the walk from index \<open>i\<close>.
\<close>

function skip_equal :: "real list \<Rightarrow> nat \<Rightarrow> nat \<Rightarrow> nat" where
  "skip_equal x i i_ahead =
     (if i_ahead < length x - 1 \<and> x ! i_ahead = x ! i
      then skip_equal x i (i_ahead + 1) else i_ahead)"
  by pat_completeness auto
termination
  by (relation "measure (\<lambda>(x, i, i_ahead). length x - i_ahead)") auto

declare skip_equal.simps [simp del]

lemma skip_equal_ge: "i_ahead \<le> skip_equal x i i_ahead"
proof (induction x i i_ahead rule: skip_equal.induct)
  case (1 x i i_ahead)
  show ?case
  proof (cases "i_ahead < length x - 1 \<and> x ! i_ahead = x ! i")
    case True
    with 1 have "i_ahead + 1 \<le> skip_equal x i (i_ahead + 1)" by simp
    with True show ?thesis by (subst skip_equal.simps) simp
  next
    case False
    then show ?thesis by (subst skip_equal.simps) auto
  qed
qed

function local_maxima_from :: "real list \<Rightarrow> nat \<Rightarrow> nat list" where
  "local_maxima_from x i =
     (if i < length x - 1
      then (if x ! (i - 1) < x ! i
            then (let i_ahead = skip_equal x i (i + 1)
                  in if x ! i_ahead < x ! i
                     then ((i + (i_ahead - 1)) div 2) # local_maxima_from x (i_ahead + 1)
                     else local_maxima_from x (i + 1))
            else local_maxima_from x (i + 1))
      else [])"
  by pat_completeness auto
termination
proof (relation "measure (\<lambda>(x, i). length x - i)")
  show "wf (measure (\<lambda>(x, i). length x - i))" by simp
next
  fix x :: "real list" and i i_ahead :: nat
  assume "i < length x - 1" and "i_ahead = skip_equal x i (i + 1)"
  moreover have "i + 1 \<le> skip_equal x i (i + 1)" by (rule skip_equal_ge)
  ultimately show "((x, i_ahead + 1), x, i) \<in> measure (\<lambda>(x, i). length x - i)" by simp
qed auto

declare local_maxima_from.simps [simp del]

text \<open>The height condition keeps the maxima whose sample is at least \<open>height\<close>.\<close>

definition find_peaks :: "real list \<Rightarrow> fval \<Rightarrow> nat list" where
  "find_peaks x height = filter (\<lambda>p. fle height (Fin (x ! p))) (local_maxima_from x 1)"

text \<open>\<open>find_s21_peaks(mag_db, min_peak_db)\<close>; the printed threshold is not modelled.\<close>

definition find_s21_peaks :: "real list \<Rightarrow> real \<Rightarrow> nat list" where
  "find_s21_peaks mag_db min_peak_db =
     (let threshold = fadd (median mag_db) (Fin min_peak_db)
      in find_peaks mag_db threshold)"

text \<open>
  A flat peak: the samples from \<open>l\<close> to \<open>r\<close> are equal, the sample before \<open>l\<close> and
  the sample after \<open>r\<close> are lower, and \<open>p\<close> is the middle of the run, rounded down.
  For \<open>l = r\<close> the sample \<open>p\<close> is a strict local maximum.
\<close>

definition flat_peak :: "real list \<Rightarrow> nat \<Rightarrow> nat \<Rightarrow> nat \<Rightarrow> bool" where
  "flat_peak x l r p \<longleftrightarrow>
     0 < l \<and> l \<le> p \<and> p \<le> r \<and> r + 1 < length x \<and> p = (l + r) div 2 \<and>
     (\<forall>k. l \<le> k \<and> k \<le> r \<longrightarrow> x ! k = x ! l) \<and>
     x ! (l - 1) < x ! l \<and> x ! (r + 1) < x ! l"

section \<open>Loss tangent\<close>

text \<open>The two half-power searches of \<open>calculate_loss_tangent\<close>.\<close>

function search_left :: "real list \<Rightarrow> real \<Rightarrow> nat \<Rightarrow> nat" where
  "search_left mag_db half_mag left =
     (if left > 0 \<and> mag_db ! left > half_mag
      then search_left mag_db half_mag (left - 1) else left)"
  by pat_completeness auto
termination
  by (relation "measure (\<lambda>(mag_db, half_mag, left). left)") auto

declare search_left.simps [simp del]

function search_right :: "real list \<Rightarrow> real \<Rightarrow> nat \<Rightarrow> nat" where
  "search_right mag_db half_mag right =
     (if right < length mag_db - 1 \<and> mag_db ! right > half_mag
      then search_right mag_db half_mag (right + 1) else right)"
  by pat_completeness auto
termination
  by (relation "measure (\<lambda>(mag_db, half_mag, right). length mag_db - right)") auto

declare search_right.simps [simp del]

text \<open>The body of the loop over the peaks, for one peak.\<close>

definition loss_tangent_peak :: "real list \<Rightarrow> real list \<Rightarrow> nat \<Rightarrow> error + fval" where
  "loss_tangent_peak freq mag_db peak_idx =
     (case np_index mag_db peak_idx of
        Inl e \<Rightarrow> Inl e
      | Inr peak_mag \<Rightarrow>
          (let half_mag = peak_mag - 3;
               left = search_left mag_db half_mag peak_idx;
               right = search_right mag_db half_mag peak_idx
           in case np_index freq left of
                Inl e \<Rightarrow> Inl e
              | Inr f_left \<Rightarrow>
                  (case np_index freq right of
                     Inl e \<Rightarrow> Inl e
                   | Inr f_right \<Rightarrow>
                       (case np_index freq peak_idx of
                          Inl e \<Rightarrow> Inl e
                        | Inr f0 \<Rightarrow>
                            (let bw = f_right - f_left;
                                 Q = (if bw > 0 then np_div (Fin f0) (Fin bw) else NaN);
                                 loss_tangent = (if fgt Q (Fin 0) then np_div (Fin 1) Q else NaN)
                             in Inr loss_tangent)))))"

text \<open>The bandwidth \<open>bw\<close> that \<open>calculate_loss_tangent\<close> computes for one peak.\<close>

definition bandwidth :: "real list \<Rightarrow> real list \<Rightarrow> nat \<Rightarrow> real" where
  "bandwidth freq mag_db peak_idx =
     (let half_mag = mag_db ! peak_idx - 3
      in freq ! search_right mag_db half_mag peak_idx - freq ! search_left mag_db half_mag peak_idx)"

fun calculate_loss_tangent :: "real list \<Rightarrow> real list \<Rightarrow> nat list \<Rightarrow> error + fval list" where
  "calculate_loss_tangent freq mag_db [] = Inr []"
| "calculate_loss_tangent freq mag_db (peak_idx # peaks) =
     (case loss_tangent_peak freq mag_db peak_idx of
        Inl e \<Rightarrow> Inl e
      | Inr loss_tangent \<Rightarrow>
          (case calculate_loss_tangent freq mag_db peaks of
             Inl e \<Rightarrow> Inl e
           | Inr loss_tangents \<Rightarrow> Inr (loss_tangent # loss_tangents)))"

section \<open>The pipeline\<close>

text \<open>The CONFIG block, passed to \<open>main\<close> as a parameter.\<close>

record config =
  RING_LENGTH_MM :: real
  SUBSTRATE_H_MM :: real
  TRACE_W_MM :: real
  MIN_PEAK_DB :: real
  CALIBRATE_L :: bool
  CALIBRATION_FREQ_HZ :: real
  CALIBRATION_EPSILON :: real
  CALIBRATION_MODE_N :: int

text \<open>One row of the results table.\<close>

record result_row =
  col_mode_n :: int
  col_freq_Hz :: real
  col_eps_eff :: fval
  col_eps_r :: fval
  col_loss_tan :: fval

definition data_frame ::
  "int list \<Rightarrow> real list \<Rightarrow> fval list \<Rightarrow> fval list \<Rightarrow> fval list \<Rightarrow> result_row list" where
  "data_frame n_modes freqs eps_eff eps_r loss_tangents =
     map (\<lambda>i. \<lparr>col_mode_n = n_modes ! i, col_freq_Hz = freqs ! i, col_eps_eff = eps_eff ! i,
               col_eps_r = eps_r ! i, col_loss_tan = loss_tangents ! i\<rparr>)
         [0..<length n_modes]"

text \<open>The ring length \<open>L\<close> in meters: calibrated, or the configured one.\<close>

definition ring_length :: "config \<Rightarrow> fval" where
  "ring_length cfg =
     (if CALIBRATE_L cfg
      then estimate_effective_length (CALIBRATION_EPSILON cfg) (CALIBRATION_FREQ_HZ cfg)
             (CALIBRATION_MODE_N cfg)
      else Fin (RING_LENGTH_MM cfg / 1000))"

text \<open>
  \<open>main\<close>, from the frequencies and the magnitudes in dB of the loaded trace to the
  results table. The samples of the trace are finite numbers. Loading the file, printing,
  the CSV file and the plots are outside the model.
\<close>

definition main :: "config \<Rightarrow> real list \<Rightarrow> real list \<Rightarrow> error + result_row list" where
  "main cfg freq mag_db =
     (let peaks = find_s21_peaks mag_db (MIN_PEAK_DB cfg)
      in case take_indices freq peaks of
           Inl e \<Rightarrow> Inl e
         | Inr freqs \<Rightarrow>
             (let n_modes = map int [1..<length freqs + 1]
              in if length freqs = 0
                 then Inl (RuntimeError ''No peaks detected; adjust MIN_PEAK_DB or check data.'')
                 else (let L = ring_length cfg;
                           h = SUBSTRATE_H_MM cfg / 1000;
                           w = TRACE_W_MM cfg / 1000;
                           eps_eff = effective_permittivity n_modes freqs L
                       in case microstrip_eps_r eps_eff h w of
                            Inl e \<Rightarrow> Inl e
                          | Inr eps_r \<Rightarrow>
                              (case calculate_loss_tangent freq mag_db peaks of
                                 Inl e \<Rightarrow> Inl e
                               | Inr loss_tangents \<Rightarrow>
                                   Inr (data_frame n_modes freqs eps_eff eps_r loss_tangents)))))"

section \<open>The operations on numbers\<close>

lemma fmul_Fin_Fin [simp]:
  "fmul (Fin x) (Fin y) = (if x * y = 0 \<and> (x < 0) \<noteq> (y < 0) then NZero else Fin (x * y))"
  by (auto simp: fmul_def signed_zero_def)

lemma np_div_Fin_Fin [simp]:
  "np_div (Fin x) (Fin y) =
     (if y = 0 then (if x = 0 then NaN else if x < 0 then NInf else PInf)
      else if x = 0 \<and> y < 0 then NZero else Fin (x / y))"
  by (auto simp: np_div_def signed_zero_def signed_inf_def)

lemma fmul_special [simp]:
  "fmul NaN b = NaN" "fmul a NaN = NaN"
  "fmul PInf PInf = PInf" "fmul PInf NInf = NInf" "fmul NInf PInf = NInf" "fmul NInf NInf = PInf"
  "fmul (Fin x) PInf = (if x = 0 then NaN else if x < 0 then NInf else PInf)"
  "fmul (Fin x) NInf = (if x = 0 then NaN else if x < 0 then PInf else NInf)"
  "fmul PInf (Fin y) = (if y = 0 then NaN else if y < 0 then NInf else PInf)"
  "fmul NInf (Fin y) = (if y = 0 then NaN else if y < 0 then PInf else NInf)"
  "fmul (Fin x) NZero = (if x < 0 then Fin 0 else NZero)"
  "fmul NZero (Fin y) = (if y < 0 then Fin 0 else NZero)"
  "fmul NZero NZero = Fin 0"
  "fmul NZero PInf = NaN" "fmul NZero NInf = NaN" "fmul PInf NZero = NaN" "fmul NInf NZero = NaN"
  by (auto simp: fmul_def signed_zero_def signed_inf_def)

lemma np_div_special [simp]:
  "np_div NaN b = NaN" "np_div a NaN = NaN"
  "np_div PInf PInf = NaN" "np_div PInf NInf = NaN" "np_div NInf PInf = NaN"
  "np_div NInf NInf = NaN"
  "np_div (Fin x) PInf = (if x < 0 then NZero else Fin 0)"
  "np_div (Fin x) NInf = (if x < 0 then Fin 0 else NZero)"
  "np_div PInf (Fin y) = (if y < 0 then NInf else PInf)"
  "np_div NInf (Fin y) = (if y < 0 then PInf else NInf)"
  "np_div (Fin x) NZero = (if x = 0 then NaN else if x < 0 then PInf else NInf)"
  "np_div NZero (Fin y) = (if y = 0 then NaN else if y < 0 then Fin 0 else NZero)"
  "np_div NZero NZero = NaN"
  "np_div NZero PInf = NZero" "np_div NZero NInf = Fin 0"
  "np_div PInf NZero = NInf" "np_div NInf NZero = PInf"
  by (auto simp: np_div_def signed_zero_def signed_inf_def)

section \<open>The permittivity formulas\<close>

lemma eps_r_element:
  assumes "0 < 1 + a"
  shows "np_div (fsub (fadd (fmul (Fin 2) (Fin e)) (Fin a)) (Fin 1)) (fadd (Fin 1) (Fin a)) =
           Fin ((2 * e + a - 1) / (1 + a))"
  using assms by (simp add: fsub_def)

lemma one_plus_quotient:
  assumes "w \<noteq> 0"
  shows "fadd (Fin 1) (np_div (Fin (12 * h)) (Fin w)) = Fin (1 + 12 * h / w)"
  using assms by simp

lemma microstrip_eps_r_nonzero_width:
  assumes "w \<noteq> 0"
  shows "microstrip_eps_r es h w =
     Inr (map (\<lambda>e. np_div (fsub (fadd (fmul (Fin 2) e)
                                (np_div (Fin 1) (np_sqrt (Fin (1 + 12 * h / w))))) (Fin 1))
                        (fadd (Fin 1) (np_div (Fin 1) (np_sqrt (Fin (1 + 12 * h / w)))))) es)"
  unfolding microstrip_eps_r_def py_div_def Let_def
  using assms
  by (simp only: is_zero.simps if_False sum.case one_plus_quotient[OF assms])

lemma microstrip_eps_r_finite:
  assumes "w \<noteq> 0" "0 < 1 + 12 * h / w"
  shows "microstrip_eps_r (map Fin es) h w =
     Inr (map (\<lambda>e. Fin ((2 * e + 1 / sqrt (1 + 12 * h / w) - 1) /
                          (1 + 1 / sqrt (1 + 12 * h / w)))) es)"
proof -
  have s: "0 < sqrt (1 + 12 * h / w)" using assms by simp
  then have p: "0 < 1 + 1 / sqrt (1 + 12 * h / w)"
    by (simp add: add_pos_pos)
  have a: "np_div (Fin 1) (np_sqrt (Fin (1 + 12 * h / w))) = Fin (1 / sqrt (1 + 12 * h / w))"
    using assms(2) s by simp
  show ?thesis
    unfolding microstrip_eps_r_nonzero_width[OF assms(1)] a
    by (simp only: eps_r_element[OF p] list.map_comp comp_def)
qed

lemma effective_permittivity_finite:
  assumes "\<forall>f \<in> set freqs. 0 < f" "0 < L"
  shows "effective_permittivity ns freqs (Fin L) =
     map (\<lambda>(n, f). Fin ((C0 * of_int n / (f * L))\<^sup>2)) (zip ns freqs)"
  using assms
  by (auto simp: effective_permittivity_def Let_def power2_eq_square dest: set_zip_rightD)

text \<open>
  Claim C1. For mode numbers \<open>ns\<close>, resonant frequencies \<open>freqs\<close> that are all positive
  and a ring length \<open>L > 0\<close>, the effective permittivity of each mode is
  \<open>(c0 n / (f0 L))\<^sup>2\<close> with \<open>c0 = 299792458\<close>, and the substrate permittivity
  computed from it is \<open>(2 eps_eff + a - 1) / (1 + a)\<close> with
  \<open>a = 1 / sqrt (1 + 12 h / w)\<close>, mode by mode: the entry of a mode depends on its own
  mode number and frequency only. The geometry is one on which the formula is defined,
  \<open>w \<noteq> 0\<close> and \<open>1 + 12 h / w > 0\<close>, which holds for all \<open>h, w > 0\<close>.
\<close>

theorem permittivity_formulas:
  assumes "\<forall>f \<in> set freqs. 0 < f" and "0 < L" and "w \<noteq> 0" and "0 < 1 + 12 * h / w"
  shows "C0 = 299792458 \<and>
     effective_permittivity ns freqs (Fin L) =
       map (\<lambda>(n, f0). Fin ((C0 * of_int n / (f0 * L))\<^sup>2)) (zip ns freqs) \<and>
     microstrip_eps_r (effective_permittivity ns freqs (Fin L)) h w =
       Inr (map (\<lambda>(n, f0). Fin ((2 * (C0 * of_int n / (f0 * L))\<^sup>2
                                    + 1 / sqrt (1 + 12 * h / w) - 1) /
                                  (1 + 1 / sqrt (1 + 12 * h / w))))
                (zip ns freqs))"
proof -
  let ?es = "map (\<lambda>(n, f0). (C0 * of_int n / (f0 * L))\<^sup>2) (zip ns freqs)"
  have 1: "effective_permittivity ns freqs (Fin L) = map Fin ?es"
    using effective_permittivity_finite[OF assms(1,2), of ns]
    by (simp add: comp_def split_def)
  have 2: "microstrip_eps_r (map Fin ?es) h w =
     Inr (map (\<lambda>e. Fin ((2 * e + 1 / sqrt (1 + 12 * h / w) - 1) /
                          (1 + 1 / sqrt (1 + 12 * h / w)))) ?es)"
    by (rule microstrip_eps_r_finite[OF assms(3,4)])
  show ?thesis
    unfolding 1 2 by (simp add: C0_def comp_def split_def)
qed

theorem permittivity_formulas_witness:
  "(0::real) < 1 \<and> (0::real) < 2 \<and> (4::real) \<noteq> 0 \<and>
   (0::real) < 1 + 12 * 1 / 4 \<and>
   effective_permittivity [1, 2] [1, 2] (Fin 1) = [Fin (C0\<^sup>2), Fin (C0\<^sup>2)] \<and>
   microstrip_eps_r (effective_permittivity [1, 2] [1, 2] (Fin 1)) 1 4 =
     Inr [Fin ((2 * C0\<^sup>2 - 1 / 2) / (3 / 2)), Fin ((2 * C0\<^sup>2 - 1 / 2) / (3 / 2))]"
proof -
  have h: "\<forall>f \<in> set [1, 2 :: real]. 0 < f" by simp
  have s: "sqrt 4 = 2" by simp
  note t = permittivity_formulas[OF h, of 1 4 1 "[1, 2]"]
  have a: "effective_permittivity [1, 2] [1, 2] (Fin 1) = [Fin (C0\<^sup>2), Fin (C0\<^sup>2)]"
    using t[THEN conjunct2, THEN conjunct1] by simp
  have b: "microstrip_eps_r (effective_permittivity [1, 2] [1, 2] (Fin 1)) 1 4 =
     Inr [Fin ((2 * C0\<^sup>2 - 1 / 2) / (3 / 2)), Fin ((2 * C0\<^sup>2 - 1 / 2) / (3 / 2))]"
    using t[THEN conjunct2, THEN conjunct2] by (simp add: s)
  show ?thesis
    by (intro conjI a b) simp_all
qed

text \<open>
  Claim C2, as amended. The permittivity computation checks nothing about the geometry
  and has no error of its own for it. With \<open>w = 0\<close> the division \<open>12.0 * h / w\<close> of two
  Python floats raises \<open>ZeroDivisionError\<close>; with \<open>w \<noteq> 0\<close> and
  \<open>1 + 12 h / w \<le> 0\<close> no error is raised and the result is \<open>NaN\<close> for every mode.
\<close>

theorem microstrip_eps_r_invalid_geometry:
  "(w = 0 \<longrightarrow> microstrip_eps_r es h w = Inl ZeroDivisionError) \<and>
   (w \<noteq> 0 \<and> 1 + 12 * h / w \<le> 0 \<longrightarrow> microstrip_eps_r es h w = Inr (map (\<lambda>e. NaN) es))"
proof (intro conjI impI)
  assume "w = 0"
  then show "microstrip_eps_r es h w = Inl ZeroDivisionError"
    by (simp add: microstrip_eps_r_def py_div_def)
next
  assume a: "w \<noteq> 0 \<and> 1 + 12 * h / w \<le> 0"
  then have w: "w \<noteq> 0" by simp
  show "microstrip_eps_r es h w = Inr (map (\<lambda>e. NaN) es)"
  proof (cases "1 + 12 * h / w = 0")
    case True
    have "np_div (fsub (fadd (fmul (Fin 2) e) PInf) (Fin 1)) (fadd (Fin 1) PInf) = NaN" for e
      by (cases e) (simp_all add: fsub_def)
    then show ?thesis
      unfolding microstrip_eps_r_nonzero_width[OF w] True by simp
  next
    case False
    then have neg: "1 + 12 * h / w < 0" using a by simp
    have "np_div (fsub (fadd (fmul (Fin 2) e) NaN) (Fin 1)) (fadd (Fin 1) NaN) = NaN" for e
      by (cases e) (simp_all add: fsub_def)
    then show ?thesis
      unfolding microstrip_eps_r_nonzero_width[OF w] using neg by simp
  qed
qed

theorem microstrip_eps_r_invalid_geometry_witness:
  "(0::real) = 0 \<and> microstrip_eps_r [Fin 1] 1 0 = Inl ZeroDivisionError \<and>
   (1::real) \<noteq> 0 \<and> 1 + 12 * (-1) / (1::real) \<le> 0 \<and>
   microstrip_eps_r [Fin 1, PInf] (-1) 1 = Inr [NaN, NaN]"
  using microstrip_eps_r_invalid_geometry[of 0 "[Fin 1]" 1]
    microstrip_eps_r_invalid_geometry[of 1 "[Fin 1, PInf]" "-1"]
  by simp

text \<open>
  Claim C2 as stated fails: with \<open>w = 0\<close> the error is Python's \<open>ZeroDivisionError\<close>,
  and with \<open>h = -1\<close>, \<open>w = 1\<close> (the square root of \<open>-11\<close>) the computation returns
  \<open>NaN\<close> and raises nothing.
\<close>

theorem microstrip_eps_r_returns_nan:
  "microstrip_eps_r [Fin 1] 1 0 = Inl ZeroDivisionError \<and>
   microstrip_eps_r [Fin 1] (-1) 1 = Inr [NaN]"
  by (simp add: microstrip_eps_r_def py_div_def fsub_def)

section \<open>The half-power search\<close>

lemma search_left_le: "search_left m h l \<le> l"
proof (induction m h l rule: search_left.induct)
  case (1 m h l)
  show ?case
  proof (cases "l > 0 \<and> m ! l > h")
    case True
    with 1 have "search_left m h (l - 1) \<le> l - 1" by simp
    with True show ?thesis by (subst search_left.simps) auto
  next
    case False
    then show ?thesis by (subst search_left.simps) auto
  qed
qed

lemma search_left_stop: "search_left m h l = 0 \<or> m ! (search_left m h l) \<le> h"
proof (induction m h l rule: search_left.induct)
  case (1 m h l)
  show ?case
  proof (cases "l > 0 \<and> m ! l > h")
    case True
    with 1 show ?thesis by (subst (1 2) search_left.simps) auto
  next
    case False
    then show ?thesis by (subst (1 2) search_left.simps) auto
  qed
qed

lemma search_left_above: "search_left m h l < j \<Longrightarrow> j \<le> l \<Longrightarrow> h < m ! j"
proof (induction m h l rule: search_left.induct)
  case (1 m h l)
  show ?case
  proof (cases "l > 0 \<and> m ! l > h")
    case True
    then have eq: "search_left m h l = search_left m h (l - 1)"
      by (subst search_left.simps) simp
    show ?thesis
    proof (cases "j = l")
      case True
      with \<open>l > 0 \<and> m ! l > h\<close> show ?thesis by simp
    next
      case False
      with 1 True eq show ?thesis by auto
    qed
  next
    case False
    then have "search_left m h l = l" by (subst search_left.simps) auto
    with 1(2,3) show ?thesis by simp
  qed
qed

lemma search_right_ge: "r \<le> search_right m h r"
proof (induction m h r rule: search_right.induct)
  case (1 m h r)
  show ?case
  proof (cases "r < length m - 1 \<and> m ! r > h")
    case True
    with 1 have "r + 1 \<le> search_right m h (r + 1)" by simp
    with True show ?thesis by (subst search_right.simps) auto
  next
    case False
    then show ?thesis by (subst search_right.simps) auto
  qed
qed

lemma search_right_bound: "r < length m \<Longrightarrow> search_right m h r < length m"
proof (induction m h r rule: search_right.induct)
  case (1 m h r)
  show ?case
  proof (cases "r < length m - 1 \<and> m ! r > h")
    case True
    with 1 have "search_right m h (r + 1) < length m" by auto
    with True show ?thesis by (subst search_right.simps) auto
  next
    case False
    with 1(2) show ?thesis by (subst search_right.simps) auto
  qed
qed

lemma search_right_stop:
  "\<not> search_right m h r < length m - 1 \<or> m ! (search_right m h r) \<le> h"
proof (induction m h r rule: search_right.induct)
  case (1 m h r)
  show ?case
  proof (cases "r < length m - 1 \<and> m ! r > h")
    case True
    with 1 show ?thesis by (subst (1 2) search_right.simps) auto
  next
    case False
    then show ?thesis by (subst (1 2) search_right.simps) auto
  qed
qed

lemma search_right_above: "r \<le> j \<Longrightarrow> j < search_right m h r \<Longrightarrow> h < m ! j"
proof (induction m h r rule: search_right.induct)
  case (1 m h r)
  show ?case
  proof (cases "r < length m - 1 \<and> m ! r > h")
    case True
    then have eq: "search_right m h r = search_right m h (r + 1)"
      by (subst search_right.simps) simp
    show ?thesis
    proof (cases "j = r")
      case True
      with \<open>r < length m - 1 \<and> m ! r > h\<close> show ?thesis by simp
    next
      case False
      with 1 True eq show ?thesis by auto
    qed
  next
    case False
    then have "search_right m h r = r" by (subst search_right.simps) auto
    with 1(2,3) show ?thesis by simp
  qed
qed

lemma loss_tangent_peak_in_range:
  assumes "p < length mag" and "length freq = length mag"
  shows "loss_tangent_peak freq mag p =
     Inr (if 0 < freq ! search_right mag (mag ! p - 3) p - freq ! search_left mag (mag ! p - 3) p
             \<and> 0 < freq ! p
          then Fin (1 / (freq ! p /
                  (freq ! search_right mag (mag ! p - 3) p - freq ! search_left mag (mag ! p - 3) p)))
          else NaN)"
proof -
  have l: "search_left mag (mag ! p - 3) p < length freq"
    using search_left_le[of mag "mag ! p - 3" p] assms by simp
  have r: "search_right mag (mag ! p - 3) p < length freq"
    using search_right_bound[of p mag "mag ! p - 3"] assms by simp
  show ?thesis
    using assms l r
    by (simp add: loss_tangent_peak_def np_index_def Let_def zero_less_divide_iff)
qed

lemma calculate_loss_tangent_entries:
  assumes "\<forall>p \<in> set peaks. p < length mag" and "length freq = length mag"
  shows "\<exists>ls. calculate_loss_tangent freq mag peaks = Inr ls \<and> length ls = length peaks \<and>
           (\<forall>i < length peaks. loss_tangent_peak freq mag (peaks ! i) = Inr (ls ! i))"
  using assms
proof (induction peaks)
  case Nil
  then show ?case by simp
next
  case (Cons p peaks)
  then obtain ls where ls: "calculate_loss_tangent freq mag peaks = Inr ls"
      "length ls = length peaks"
      "\<forall>i < length peaks. loss_tangent_peak freq mag (peaks ! i) = Inr (ls ! i)"
    by auto
  from Cons.prems obtain v where v: "loss_tangent_peak freq mag p = Inr v"
    using loss_tangent_peak_in_range[of p mag freq] by auto
  have "\<forall>i < length (p # peaks). loss_tangent_peak freq mag ((p # peaks) ! i) = Inr ((v # ls) ! i)"
    using ls(3) v by (auto simp: nth_Cons split: nat.splits)
  then show ?case using ls v by auto
qed

lemma half_power_bandwidth_nonneg:
  fixes freq :: "real list"
  assumes "sorted_wrt (<) freq" and "p < length mag" and "length freq = length mag"
  shows "0 \<le> freq ! search_right mag (mag ! p - 3) p - freq ! search_left mag (mag ! p - 3) p"
proof -
  let ?l = "search_left mag (mag ! p - 3) p" and ?r = "search_right mag (mag ! p - 3) p"
  have "?l \<le> ?r" using search_left_le[of mag "mag ! p - 3" p] search_right_ge[of p mag "mag ! p - 3"]
    by simp
  moreover have "?r < length freq" using search_right_bound[of p mag "mag ! p - 3"] assms by simp
  ultimately have "freq ! ?l \<le> freq ! ?r"
  proof (cases "?l = ?r")
    case True
    then show ?thesis by simp
  next
    case False
    with \<open>?l \<le> ?r\<close> have "?l < ?r" by simp
    with \<open>?r < length freq\<close> assms(1) have "freq ! ?l < freq ! ?r"
      by (simp add: sorted_wrt_iff_nth_less)
    then show ?thesis by simp
  qed
  then show ?thesis by simp
qed

section \<open>The peak detector\<close>

lemma skip_equal_bound: "j \<le> length x - 1 \<Longrightarrow> skip_equal x i j \<le> length x - 1"
proof (induction x i j rule: skip_equal.induct)
  case (1 x i j)
  show ?case
  proof (cases "j < length x - 1 \<and> x ! j = x ! i")
    case True
    with 1 have "skip_equal x i (j + 1) \<le> length x - 1" by simp
    with True show ?thesis by (subst skip_equal.simps) auto
  next
    case False
    with 1(2) show ?thesis by (subst skip_equal.simps) auto
  qed
qed

lemma skip_equal_run:
  "\<forall>k. i \<le> k \<and> k < j \<longrightarrow> x ! k = x ! i \<Longrightarrow> i \<le> k \<Longrightarrow> k < skip_equal x i j \<Longrightarrow> x ! k = x ! i"
proof (induction x i j rule: skip_equal.induct)
  case (1 x i j)
  show ?case
  proof (cases "j < length x - 1 \<and> x ! j = x ! i")
    case True
    then have eq: "skip_equal x i j = skip_equal x i (j + 1)"
      by (subst skip_equal.simps) simp
    have "\<forall>k. i \<le> k \<and> k < j + 1 \<longrightarrow> x ! k = x ! i"
    proof (intro allI impI)
      fix k assume k: "i \<le> k \<and> k < j + 1"
      show "x ! k = x ! i"
      proof (cases "k = j")
        case True
        with \<open>j < length x - 1 \<and> x ! j = x ! i\<close> show ?thesis by blast
      next
        case False
        with k have "i \<le> k \<and> k < j" by arith
        with 1(2) show ?thesis by blast
      qed
    qed
    moreover have "k < skip_equal x i (j + 1)" using 1(4) eq by arith
    ultimately show ?thesis using 1(1)[OF True] 1(3) by blast
  next
    case False
    then have "skip_equal x i j = j" by (subst skip_equal.simps) auto
    with 1(4) have "k < j" by arith
    with 1(2,3) show ?thesis by blast
  qed
qed

lemma local_maxima_from_plateau:
  "p \<in> set (local_maxima_from x i) \<Longrightarrow> 0 < i \<Longrightarrow> \<exists>l r. i \<le> l \<and> flat_peak x l r p"
proof (induction x i rule: local_maxima_from.induct)
  case (1 x i)
  let ?a = "skip_equal x i (i + 1)"
  show ?case
  proof (cases "i < length x - 1")
    case False
    then have "local_maxima_from x i = []" by (subst local_maxima_from.simps) simp
    with 1(4) show ?thesis by simp
  next
    case range: True
    show ?thesis
    proof (cases "x ! (i - 1) < x ! i")
      case False
      with range have eq: "local_maxima_from x i = local_maxima_from x (i + 1)"
        by (subst local_maxima_from.simps) simp
      with 1(4) have "p \<in> set (local_maxima_from x (i + 1))" by simp
      from 1(3)[OF range False this]
      obtain l r where "i + 1 \<le> l" "flat_peak x l r p" by auto
      then have "i \<le> l \<and> flat_peak x l r p" by simp
      then show ?thesis by blast
    next
      case rise: True
      have age: "i + 1 \<le> ?a" by (rule skip_equal_ge)
      have ale: "?a \<le> length x - 1" using range by (intro skip_equal_bound) simp
      have base: "\<forall>k. i \<le> k \<and> k < i + 1 \<longrightarrow> x ! k = x ! i"
      proof (intro allI impI)
        fix k assume "i \<le> k \<and> k < i + 1"
        then have "k = i" by arith
        then show "x ! k = x ! i" by simp
      qed
      have run: "x ! k = x ! i" if "i \<le> k" "k < ?a" for k
        using skip_equal_run[OF base that] .
      show ?thesis
      proof (cases "x ! ?a < x ! i")
        case False
        with range rise have eq: "local_maxima_from x i = local_maxima_from x (i + 1)"
          by (subst local_maxima_from.simps) (simp add: Let_def)
        with 1(4) have "p \<in> set (local_maxima_from x (i + 1))" by simp
        from 1(2)[OF range rise refl False this]
        obtain l r where "i + 1 \<le> l" "flat_peak x l r p" by auto
        then have "i \<le> l \<and> flat_peak x l r p" by simp
        then show ?thesis by blast
      next
        case fall: True
        with range rise have eq: "local_maxima_from x i =
            ((i + (?a - 1)) div 2) # local_maxima_from x (?a + 1)"
          by (subst local_maxima_from.simps) (simp add: Let_def)
        show ?thesis
        proof (cases "p = (i + (?a - 1)) div 2")
          case True
          have 1: "0 < i" by fact
          have 2: "i \<le> p" using True age by arith
          have 3: "p \<le> ?a - 1" using True age by arith
          have 4: "(?a - 1) + 1 < length x" using age ale range by arith
          have 5: "\<forall>k. i \<le> k \<and> k \<le> ?a - 1 \<longrightarrow> x ! k = x ! i"
          proof (intro allI impI)
            fix k assume "i \<le> k \<and> k \<le> ?a - 1"
            then have "i \<le> k" "k < ?a" using age by arith+
            then show "x ! k = x ! i" by (rule run)
          qed
          have 6: "x ! ((?a - 1) + 1) < x ! i" using fall age by simp
          have "flat_peak x i (?a - 1) p"
            unfolding flat_peak_def using 1 2 3 4 5 6 True rise by blast
          then show ?thesis by blast
        next
          case False
          with 1(4) eq have "p \<in> set (local_maxima_from x (?a + 1))" by simp
          from 1(1)[OF range rise refl fall this]
          obtain l r where "?a + 1 \<le> l" "flat_peak x l r p" by auto
          then have "i \<le> l \<and> flat_peak x l r p" using age by simp
          then show ?thesis by blast
        qed
      qed
    qed
  qed
qed

lemma find_s21_peaks_in_range:
  assumes "p \<in> set (find_s21_peaks mag d)"
  shows "p + 1 < length mag"
proof -
  from assms have "p \<in> set (local_maxima_from mag 1)"
    by (simp add: find_s21_peaks_def find_peaks_def)
  then obtain l r where "flat_peak mag l r p"
    using local_maxima_from_plateau[of p mag 1] by auto
  then show ?thesis unfolding flat_peak_def by arith
qed

lemma take_indices_in_range:
  "\<forall>p \<in> set ps. p < length xs \<Longrightarrow> take_indices xs ps = Inr (map ((!) xs) ps)"
  by (induction ps) (simp_all add: np_index_def)

lemma microstrip_eps_r_elementwise:
  assumes "w \<noteq> 0"
  shows "\<exists>er. microstrip_eps_r es h w = Inr er \<and> length er = length es \<and>
           (\<forall>i < length es. microstrip_eps_r [es ! i] h w = Inr [er ! i])"
  using assms by (simp add: microstrip_eps_r_def py_div_def Let_def)

lemma main_table:
  assumes len: "length freq = length mag_db"
    and w: "TRACE_W_MM cfg \<noteq> 0"
    and peaks: "find_s21_peaks mag_db (MIN_PEAK_DB cfg) = peaks"
    and ne: "peaks \<noteq> []"
  shows "\<exists>eps_r loss_tangents.
     microstrip_eps_r
       (effective_permittivity (map int [1..<length peaks + 1]) (map ((!) freq) peaks) (ring_length cfg))
       (SUBSTRATE_H_MM cfg / 1000) (TRACE_W_MM cfg / 1000) = Inr eps_r \<and>
     calculate_loss_tangent freq mag_db peaks = Inr loss_tangents \<and>
     main cfg freq mag_db =
       Inr (data_frame (map int [1..<length peaks + 1]) (map ((!) freq) peaks)
              (effective_permittivity (map int [1..<length peaks + 1]) (map ((!) freq) peaks)
                 (ring_length cfg))
              eps_r loss_tangents)"
proof -
  have r: "\<forall>p \<in> set peaks. p < length mag_db"
  proof
    fix p assume "p \<in> set peaks"
    then have "p + 1 < length mag_db"
      using find_s21_peaks_in_range[of p mag_db "MIN_PEAK_DB cfg"] peaks by simp
    then show "p < length mag_db" by simp
  qed
  then have r': "\<forall>p \<in> set peaks. p < length freq" using len by simp
  have t: "take_indices freq peaks = Inr (map ((!) freq) peaks)"
    by (rule take_indices_in_range[OF r'])
  let ?ee = "effective_permittivity (map int [1..<length peaks + 1]) (map ((!) freq) peaks)
                 (ring_length cfg)"
  from w have "TRACE_W_MM cfg / 1000 \<noteq> 0" by simp
  from microstrip_eps_r_elementwise[OF this, of ?ee "SUBSTRATE_H_MM cfg / 1000"]
  obtain er where er: "microstrip_eps_r ?ee (SUBSTRATE_H_MM cfg / 1000) (TRACE_W_MM cfg / 1000) = Inr er"
    by blast
  from calculate_loss_tangent_entries[OF r len]
  obtain ls where ls: "calculate_loss_tangent freq mag_db peaks = Inr ls" by blast
  have "main cfg freq mag_db =
       Inr (data_frame (map int [1..<length peaks + 1]) (map ((!) freq) peaks) ?ee er ls)"
    unfolding main_def Let_def peaks t
    using ne by (simp only: sum.case length_map length_0_conv map_is_Nil_conv if_False er ls)
  with er ls show ?thesis by blast
qed

section \<open>The pipeline and the loss estimator\<close>

text \<open>
  Claim C4. If the peak detection returns no peak, \<open>main\<close> stops with the error
  "No peaks detected" (the condition the specification calls NoPeaksDetected): the
  result is that error and no results table.
\<close>

theorem no_peaks_detected:
  assumes "find_s21_peaks mag_db (MIN_PEAK_DB cfg) = []"
  shows "main cfg freq mag_db =
           Inl (RuntimeError ''No peaks detected; adjust MIN_PEAK_DB or check data.'')"
  using assms by (simp add: main_def)

lemma peaks_0_10_0: "local_maxima_from [0, 10, 0] (Suc 0) = [Suc 0]"
  by (simp add: local_maxima_from.simps skip_equal.simps)

lemma median_0_10_0: "median [0, 10, 0] = Fin 0"
  by (simp add: median_def)

lemma no_peaks_0_10_0: "find_s21_peaks [0, 10, 0] 16 = []"
  by (simp add: find_s21_peaks_def find_peaks_def median_0_10_0 peaks_0_10_0)

theorem no_peaks_detected_witness:
  "find_s21_peaks [0, 10, 0]
     (MIN_PEAK_DB \<lparr>RING_LENGTH_MM = 100, SUBSTRATE_H_MM = 16 / 10, TRACE_W_MM = 3,
        MIN_PEAK_DB = 16, CALIBRATE_L = False, CALIBRATION_FREQ_HZ = 1000000000,
        CALIBRATION_EPSILON = 42 / 10, CALIBRATION_MODE_N = 1\<rparr>) = [] \<and>
   main \<lparr>RING_LENGTH_MM = 100, SUBSTRATE_H_MM = 16 / 10, TRACE_W_MM = 3,
        MIN_PEAK_DB = 16, CALIBRATE_L = False, CALIBRATION_FREQ_HZ = 1000000000,
        CALIBRATION_EPSILON = 42 / 10, CALIBRATION_MODE_N = 1\<rparr> [1, 2, 3] [0, 10, 0] =
     Inl (RuntimeError ''No peaks detected; adjust MIN_PEAK_DB or check data.'')"
proof -
  let ?cfg = "\<lparr>RING_LENGTH_MM = 100, SUBSTRATE_H_MM = 16 / 10, TRACE_W_MM = 3,
        MIN_PEAK_DB = 16, CALIBRATE_L = False, CALIBRATION_FREQ_HZ = 1000000000,
        CALIBRATION_EPSILON = 42 / 10, CALIBRATION_MODE_N = 1\<rparr>"
  have h: "find_s21_peaks [0, 10, 0] (MIN_PEAK_DB ?cfg) = []"
    using no_peaks_0_10_0 by simp
  show ?thesis using h no_peaks_detected[OF h, of "[1, 2, 3]"] by blast
qed

text \<open>
  Claim C5. For a trace and a peak index in it, with \<open>half_mag\<close> the magnitude of the
  peak minus 3: \<open>left\<close> is the first index at or below the peak, going down, that is 0 or
  whose magnitude is not above \<open>half_mag\<close>; \<open>right\<close> is the first index at or above the
  peak, going up, that is the last index or whose magnitude is not above \<open>half_mag\<close>; and
  when the bandwidth \<open>frequency(right) - frequency(left)\<close> is positive, the loss tangent
  is \<open>1 / Q\<close> with \<open>Q = frequency(peak) / bandwidth\<close>. The frequencies of a trace are
  positive.
\<close>

theorem half_power_search:
  fixes freq mag_db :: "real list" and peak_idx :: nat
  defines "half_mag \<equiv> mag_db ! peak_idx - 3"
  defines "left \<equiv> search_left mag_db half_mag peak_idx"
  defines "right \<equiv> search_right mag_db half_mag peak_idx"
  assumes "peak_idx < length mag_db" and "length freq = length mag_db"
    and "0 < freq ! peak_idx"
  shows "left \<le> peak_idx \<and> (left = 0 \<or> mag_db ! left \<le> half_mag) \<and>
     (\<forall>j. left < j \<and> j \<le> peak_idx \<longrightarrow> half_mag < mag_db ! j) \<and>
     peak_idx \<le> right \<and> right < length mag_db \<and>
     (right = length mag_db - 1 \<or> mag_db ! right \<le> half_mag) \<and>
     (\<forall>j. peak_idx \<le> j \<and> j < right \<longrightarrow> half_mag < mag_db ! j) \<and>
     (0 < freq ! right - freq ! left \<longrightarrow>
        loss_tangent_peak freq mag_db peak_idx =
          Inr (Fin (1 / (freq ! peak_idx / (freq ! right - freq ! left)))))"
proof -
  have 1: "left \<le> peak_idx" unfolding left_def by (rule search_left_le)
  have 2: "left = 0 \<or> mag_db ! left \<le> half_mag" unfolding left_def by (rule search_left_stop)
  have 3: "\<forall>j. left < j \<and> j \<le> peak_idx \<longrightarrow> half_mag < mag_db ! j"
    unfolding left_def using search_left_above by blast
  have 4: "peak_idx \<le> right" unfolding right_def by (rule search_right_ge)
  have 5: "right < length mag_db" unfolding right_def using assms(4) by (rule search_right_bound)
  have "\<not> right < length mag_db - 1 \<or> mag_db ! right \<le> half_mag"
    unfolding right_def by (rule search_right_stop)
  with 5 have 6: "right = length mag_db - 1 \<or> mag_db ! right \<le> half_mag" by arith
  have 7: "\<forall>j. peak_idx \<le> j \<and> j < right \<longrightarrow> half_mag < mag_db ! j"
    unfolding right_def using search_right_above by blast
  have 8: "0 < freq ! right - freq ! left \<longrightarrow>
        loss_tangent_peak freq mag_db peak_idx =
          Inr (Fin (1 / (freq ! peak_idx / (freq ! right - freq ! left))))"
    unfolding left_def right_def half_mag_def
    using loss_tangent_peak_in_range[OF assms(4,5)] assms(6) by simp
  show ?thesis using 1 2 3 4 5 6 7 8 by blast
qed

lemma left_0_10_0: "search_left [0, 10, 0] 7 (Suc 0) = 0"
  by (simp add: search_left.simps)

lemma right_0_10_0: "search_right [0, 10, 0] 7 (Suc 0) = 2"
  by (simp add: search_right.simps)

theorem half_power_search_witness:
  "(1::nat) < length [0, 10, 0 :: real] \<and> length [1, 2, 3 :: real] = length [0, 10, 0 :: real] \<and>
   (0::real) < [1, 2, 3] ! 1 \<and>
   search_left [0, 10, 0] ([0, 10, 0] ! 1 - 3) 1 = 0 \<and>
   search_right [0, 10, 0] ([0, 10, 0] ! 1 - 3) 1 = 2 \<and>
   (0::real) < [1, 2, 3] ! 2 - [1, 2, 3] ! 0 \<and>
   loss_tangent_peak [1, 2, 3] [0, 10, 0] 1 = Inr (Fin 1)"
  using half_power_search[of 1 "[0, 10, 0]" "[1, 2, 3]"] left_0_10_0 right_0_10_0
  by simp

text \<open>
  Claim C10. For a trace with strictly increasing frequencies and peak indices inside the
  trace, the half-power search of every peak ends with \<open>left \<le> peak \<le> right\<close>, the
  bandwidth is not negative, every entry of the returned list is \<open>NaN\<close> (the missing
  value) or a positive number, and the list has one entry per peak, in the order of the
  peaks: entry \<open>i\<close> is the loss tangent of peak \<open>i\<close>.
\<close>

theorem loss_tangent_list_sound:
  fixes freq mag_db :: "real list"
  assumes "sorted_wrt (<) freq" and "length freq = length mag_db"
    and "\<forall>p \<in> set peaks. p < length mag_db"
  shows "\<exists>ls. calculate_loss_tangent freq mag_db peaks = Inr ls \<and> length ls = length peaks \<and>
     (\<forall>i < length peaks.
        search_left mag_db (mag_db ! (peaks ! i) - 3) (peaks ! i) \<le> peaks ! i \<and>
        peaks ! i \<le> search_right mag_db (mag_db ! (peaks ! i) - 3) (peaks ! i) \<and>
        0 \<le> freq ! search_right mag_db (mag_db ! (peaks ! i) - 3) (peaks ! i)
              - freq ! search_left mag_db (mag_db ! (peaks ! i) - 3) (peaks ! i) \<and>
        loss_tangent_peak freq mag_db (peaks ! i) = Inr (ls ! i) \<and>
        (ls ! i = NaN \<or> (\<exists>t > 0. ls ! i = Fin t)))"
proof -
  from calculate_loss_tangent_entries[OF assms(3,2)]
  obtain ls where ls: "calculate_loss_tangent freq mag_db peaks = Inr ls"
      "length ls = length peaks"
      "\<forall>i < length peaks. loss_tangent_peak freq mag_db (peaks ! i) = Inr (ls ! i)"
    by blast
  have "search_left mag_db (mag_db ! (peaks ! i) - 3) (peaks ! i) \<le> peaks ! i \<and>
        peaks ! i \<le> search_right mag_db (mag_db ! (peaks ! i) - 3) (peaks ! i) \<and>
        0 \<le> freq ! search_right mag_db (mag_db ! (peaks ! i) - 3) (peaks ! i)
              - freq ! search_left mag_db (mag_db ! (peaks ! i) - 3) (peaks ! i) \<and>
        loss_tangent_peak freq mag_db (peaks ! i) = Inr (ls ! i) \<and>
        (ls ! i = NaN \<or> (\<exists>t > 0. ls ! i = Fin t))" if i: "i < length peaks" for i
  proof -
    let ?p = "peaks ! i"
    let ?bw = "freq ! search_right mag_db (mag_db ! ?p - 3) ?p
              - freq ! search_left mag_db (mag_db ! ?p - 3) ?p"
    have p: "?p < length mag_db" using assms(3) i by simp
    have v: "loss_tangent_peak freq mag_db ?p = Inr (ls ! i)" using ls(3) i by simp
    have val: "ls ! i = (if 0 < ?bw \<and> 0 < freq ! ?p then Fin (1 / (freq ! ?p / ?bw)) else NaN)"
      using loss_tangent_peak_in_range[OF p assms(2)] v by simp
    have pos: "ls ! i = NaN \<or> (\<exists>t > 0. ls ! i = Fin t)"
    proof (cases "0 < ?bw \<and> 0 < freq ! ?p")
      case True
      then have "0 < 1 / (freq ! ?p / ?bw)" by simp
      moreover have "ls ! i = Fin (1 / (freq ! ?p / ?bw))" using val True by simp
      ultimately show ?thesis by blast
    next
      case False
      then have "ls ! i = NaN" using val by simp
      then show ?thesis by simp
    qed
    show ?thesis
      using search_left_le[of mag_db "mag_db ! ?p - 3" ?p]
        search_right_ge[of ?p mag_db "mag_db ! ?p - 3"]
        half_power_bandwidth_nonneg[OF assms(1) p assms(2)] v pos
      by blast
  qed
  with ls(1,2) show ?thesis by blast
qed

theorem loss_tangent_list_sound_witness:
  "sorted_wrt (<) [1, 2, 3 :: real] \<and> length [1, 2, 3 :: real] = length [0, 10, 0 :: real] \<and>
   (1::nat) < length [0, 10, 0 :: real] \<and>
   calculate_loss_tangent [1, 2, 3] [0, 10, 0] [1] = Inr [Fin 1]"
proof -
  have s: "sorted_wrt (<) [1, 2, 3 :: real]" by simp
  have l: "length [1, 2, 3 :: real] = length [0, 10, 0 :: real]" by simp
  have r: "\<forall>p \<in> set [1 :: nat]. p < length [0, 10, 0 :: real]" by simp
  have "loss_tangent_peak [1, 2, 3] [0, 10, 0] (Suc 0) = Inr (Fin 1)"
    using loss_tangent_peak_in_range[of 1 "[0, 10, 0]" "[1, 2, 3]"] left_0_10_0 right_0_10_0
    by simp
  then have c: "calculate_loss_tangent [1, 2, 3] [0, 10, 0] [1] = Inr [Fin 1]" by simp
  from loss_tangent_list_sound[OF s l r] c s l show ?thesis by simp
qed

section \<open>The reported peaks\<close>

lemma fgt_not_fle: "fgt t (Fin v) \<Longrightarrow> \<not> fle t (Fin v)"
  by (cases t) simp_all

text \<open>
  Claim C8, as amended. If every sample is below the threshold \<open>median + min_peak_db\<close>,
  no peak is reported. A reported peak is an index of the trace whose sample is at or
  above the threshold and that is the middle, rounded down, of a run of equal samples
  with a lower sample on each side (a strict local maximum when the run is one sample).
\<close>

theorem find_s21_peaks_threshold:
  "((\<forall>v \<in> set mag_db. fgt (fadd (median mag_db) (Fin min_peak_db)) (Fin v)) \<longrightarrow>
      find_s21_peaks mag_db min_peak_db = []) \<and>
   (\<forall>p \<in> set (find_s21_peaks mag_db min_peak_db).
      p < length mag_db \<and> fle (fadd (median mag_db) (Fin min_peak_db)) (Fin (mag_db ! p)) \<and>
      (\<exists>l r. flat_peak mag_db l r p))"
proof (intro conjI impI ballI)
  assume below: "\<forall>v \<in> set mag_db. fgt (fadd (median mag_db) (Fin min_peak_db)) (Fin v)"
  have "\<not> fle (fadd (median mag_db) (Fin min_peak_db)) (Fin (mag_db ! p))"
    if "p \<in> set (local_maxima_from mag_db 1)" for p
  proof -
    from that obtain l r where "flat_peak mag_db l r p"
      using local_maxima_from_plateau[of p mag_db 1] by auto
    then have "p < length mag_db" unfolding flat_peak_def by arith
    then have "mag_db ! p \<in> set mag_db" by simp
    with below show ?thesis using fgt_not_fle by blast
  qed
  then show "find_s21_peaks mag_db min_peak_db = []"
    by (simp add: find_s21_peaks_def find_peaks_def filter_empty_conv)
next
  fix p assume p: "p \<in> set (find_s21_peaks mag_db min_peak_db)"
  then show "p < length mag_db" using find_s21_peaks_in_range[OF p] by simp
next
  fix p assume p: "p \<in> set (find_s21_peaks mag_db min_peak_db)"
  then show "fle (fadd (median mag_db) (Fin min_peak_db)) (Fin (mag_db ! p))"
    by (simp add: find_s21_peaks_def find_peaks_def)
next
  fix p assume p: "p \<in> set (find_s21_peaks mag_db min_peak_db)"
  then have "p \<in> set (local_maxima_from mag_db 1)"
    by (simp add: find_s21_peaks_def find_peaks_def)
  then show "\<exists>l r. flat_peak mag_db l r p"
    using local_maxima_from_plateau[of p mag_db 1] by auto
qed

lemma peaks_0_1_1_0: "local_maxima_from [0, 1, 1, 0] (Suc 0) = [Suc 0]"
  by (simp add: local_maxima_from.simps skip_equal.simps)

lemma median_0_1_1_0: "median [0, 1, 1, 0] = Fin (1 / 2)"
  by (simp add: median_def)

text \<open>
  Claim C8 as stated fails on a flat top: in the trace \<open>0, 1, 1, 0\<close> with
  \<open>min_peak_db = 0\<close> the sample at index 1 is reported, and it is not higher than the
  sample at index 2.
\<close>

theorem find_s21_peaks_flat_top:
  "find_s21_peaks [0, 1, 1, 0] 0 = [1] \<and> \<not> ([0, 1, 1, 0 :: real] ! 1 > [0, 1, 1, 0] ! 2)"
  by (simp add: find_s21_peaks_def find_peaks_def median_0_1_1_0 peaks_0_1_1_0)

theorem find_s21_peaks_threshold_witness:
  "fgt (fadd (median [0, 10, 0]) (Fin 16)) (Fin 0) \<and>
   fgt (fadd (median [0, 10, 0]) (Fin 16)) (Fin 10) \<and>
   find_s21_peaks [0, 10, 0] 16 = [] \<and>
   1 \<in> set (find_s21_peaks [0, 1, 1, 0] 0) \<and>
   fle (fadd (median [0, 1, 1, 0]) (Fin 0)) (Fin ([0, 1, 1, 0] ! 1)) \<and>
   flat_peak [0, 1, 1, 0] 1 2 1"
proof -
  have a: "fgt (fadd (median [0, 10, 0]) (Fin 16)) (Fin 0)"
    and b: "fgt (fadd (median [0, 10, 0]) (Fin 16)) (Fin 10)"
    by (simp_all add: median_0_10_0)
  then have "\<forall>v \<in> set [0, 10, 0]. fgt (fadd (median [0, 10, 0]) (Fin 16)) (Fin v)"
    by simp
  with find_s21_peaks_threshold[of "[0, 10, 0]" 16]
  have c: "find_s21_peaks [0, 10, 0] 16 = []" by blast
  have d: "1 \<in> set (find_s21_peaks [0, 1, 1, 0] 0)"
    by (simp add: find_s21_peaks_def find_peaks_def median_0_1_1_0 peaks_0_1_1_0)
  with find_s21_peaks_threshold[of "[0, 1, 1, 0]" 0]
  have e: "fle (fadd (median [0, 1, 1, 0]) (Fin 0)) (Fin ([0, 1, 1, 0] ! 1))" by blast
  have f: "flat_peak [0, 1, 1, 0] 1 2 1"
    by (simp add: flat_peak_def nth_Cons split: nat.splits)
  show ?thesis using a b c d e f by blast
qed

section \<open>The results table\<close>

lemma loss_tangent_peak_nan:
  assumes "p < length mag" and "length freq = length mag" and "bandwidth freq mag p \<le> 0"
  shows "loss_tangent_peak freq mag p = Inr NaN"
  using loss_tangent_peak_in_range[OF assms(1,2)] assms(3)
  by (simp add: bandwidth_def Let_def)

lemma effective_permittivity_single:
  assumes "i < length ns" and "i < length fs"
  shows "effective_permittivity [ns ! i] [fs ! i] L = [effective_permittivity ns fs L ! i]"
  using assms by (simp add: effective_permittivity_def)

lemma length_effective_permittivity:
  "length (effective_permittivity ns fs L) = min (length ns) (length fs)"
  by (simp add: effective_permittivity_def)

lemma data_frame_nth:
  "i < length ns \<Longrightarrow> data_frame ns fs ee er ls ! i =
     \<lparr>col_mode_n = ns ! i, col_freq_Hz = fs ! i, col_eps_eff = ee ! i, col_eps_r = er ! i,
      col_loss_tan = ls ! i\<rparr>"
  by (simp add: data_frame_def)

lemma length_data_frame: "length (data_frame ns fs ee er ls) = length ns"
  by (simp add: data_frame_def)

lemma main_rows:
  assumes len: "length freq = length mag_db"
    and w: "TRACE_W_MM cfg \<noteq> 0"
    and peaks: "find_s21_peaks mag_db (MIN_PEAK_DB cfg) = peaks"
    and ne: "peaks \<noteq> []"
  shows "\<exists>rows. main cfg freq mag_db = Inr rows \<and> length rows = length peaks \<and>
     (\<forall>i < length peaks.
        col_mode_n (rows ! i) = int i + 1 \<and>
        col_freq_Hz (rows ! i) = freq ! (peaks ! i) \<and>
        loss_tangent_peak freq mag_db (peaks ! i) = Inr (col_loss_tan (rows ! i)) \<and>
        effective_permittivity [int i + 1] [freq ! (peaks ! i)] (ring_length cfg) =
          [col_eps_eff (rows ! i)] \<and>
        microstrip_eps_r [col_eps_eff (rows ! i)] (SUBSTRATE_H_MM cfg / 1000)
          (TRACE_W_MM cfg / 1000) = Inr [col_eps_r (rows ! i)])"
proof -
  define ns where "ns = map int [1..<length peaks + 1]"
  define fs where "fs = map ((!) freq) peaks"
  define ee where "ee = effective_permittivity ns fs (ring_length cfg)"
  from main_table[OF len w peaks ne]
  obtain er ls where er: "microstrip_eps_r ee (SUBSTRATE_H_MM cfg / 1000) (TRACE_W_MM cfg / 1000) = Inr er"
    and ls: "calculate_loss_tangent freq mag_db peaks = Inr ls"
    and m: "main cfg freq mag_db = Inr (data_frame ns fs ee er ls)"
    unfolding ns_def fs_def ee_def by blast
  have lns: "length ns = length peaks" by (simp add: ns_def del: upt_Suc)
  have lfs: "length fs = length peaks" by (simp add: fs_def)
  have lee: "length ee = length peaks" by (simp add: ee_def length_effective_permittivity lns lfs)
  have r: "\<forall>p \<in> set peaks. p < length mag_db"
  proof
    fix p assume "p \<in> set peaks"
    then have "p + 1 < length mag_db"
      using find_s21_peaks_in_range[of p mag_db "MIN_PEAK_DB cfg"] peaks by simp
    then show "p < length mag_db" by simp
  qed
  from calculate_loss_tangent_entries[OF r len] ls
  have lsv: "\<forall>i < length peaks. loss_tangent_peak freq mag_db (peaks ! i) = Inr (ls ! i)"
    by simp
  from w have "TRACE_W_MM cfg / 1000 \<noteq> 0" by simp
  from microstrip_eps_r_elementwise[OF this, of ee "SUBSTRATE_H_MM cfg / 1000"] er lee
  have erv: "\<forall>i < length peaks. microstrip_eps_r [ee ! i] (SUBSTRATE_H_MM cfg / 1000)
          (TRACE_W_MM cfg / 1000) = Inr [er ! i]"
    by simp
  have row: "col_mode_n (data_frame ns fs ee er ls ! i) = int i + 1 \<and>
        col_freq_Hz (data_frame ns fs ee er ls ! i) = freq ! (peaks ! i) \<and>
        loss_tangent_peak freq mag_db (peaks ! i) = Inr (col_loss_tan (data_frame ns fs ee er ls ! i)) \<and>
        effective_permittivity [int i + 1] [freq ! (peaks ! i)] (ring_length cfg) =
          [col_eps_eff (data_frame ns fs ee er ls ! i)] \<and>
        microstrip_eps_r [col_eps_eff (data_frame ns fs ee er ls ! i)] (SUBSTRATE_H_MM cfg / 1000)
          (TRACE_W_MM cfg / 1000) = Inr [col_eps_r (data_frame ns fs ee er ls ! i)]"
    if i: "i < length peaks" for i
  proof -
    have n: "ns ! i = int i + 1" using i by (simp add: ns_def del: upt_Suc)
    have f: "fs ! i = freq ! (peaks ! i)" using i by (simp add: fs_def)
    have e: "effective_permittivity [ns ! i] [fs ! i] (ring_length cfg) = [ee ! i]"
      unfolding ee_def using i lns lfs by (intro effective_permittivity_single) simp_all
    have d: "data_frame ns fs ee er ls ! i =
       \<lparr>col_mode_n = ns ! i, col_freq_Hz = fs ! i, col_eps_eff = ee ! i, col_eps_r = er ! i,
        col_loss_tan = ls ! i\<rparr>"
      using i lns by (intro data_frame_nth) simp
    show ?thesis using n f e lsv erv i by (simp add: d)
  qed
  have "length (data_frame ns fs ee er ls) = length peaks"
    by (simp add: length_data_frame lns)
  with m row show ?thesis by blast
qed

text \<open>
  Claim C6. For a trace and peak indices inside it, the loss estimator raises nothing and
  returns one entry per peak; the entry of a peak whose bandwidth is not positive is
  \<open>NaN\<close> (the missing value), and every entry is the loss tangent of its own peak. In
  \<open>main\<close>, with a nonzero trace width and at least one detected peak, the results table
  is produced with one row per peak: the loss tangent of a row is \<open>NaN\<close> where the
  bandwidth is not positive, and every row carries its mode number, frequency, effective
  permittivity and substrate permittivity.
\<close>

theorem undefined_loss_tangent_recoverable:
  assumes "length freq = length mag_db"
  shows "((\<forall>p \<in> set peaks. p < length mag_db) \<longrightarrow>
      (\<exists>ls. calculate_loss_tangent freq mag_db peaks = Inr ls \<and> length ls = length peaks \<and>
         (\<forall>i < length peaks.
            loss_tangent_peak freq mag_db (peaks ! i) = Inr (ls ! i) \<and>
            (bandwidth freq mag_db (peaks ! i) \<le> 0 \<longrightarrow> ls ! i = NaN)))) \<and>
    (TRACE_W_MM cfg \<noteq> 0 \<and> find_s21_peaks mag_db (MIN_PEAK_DB cfg) \<noteq> [] \<longrightarrow>
      (\<exists>rows. main cfg freq mag_db = Inr rows \<and>
         length rows = length (find_s21_peaks mag_db (MIN_PEAK_DB cfg)) \<and>
         (\<forall>i < length (find_s21_peaks mag_db (MIN_PEAK_DB cfg)).
            (bandwidth freq mag_db (find_s21_peaks mag_db (MIN_PEAK_DB cfg) ! i) \<le> 0 \<longrightarrow>
               col_loss_tan (rows ! i) = NaN) \<and>
            col_mode_n (rows ! i) = int i + 1 \<and>
            col_freq_Hz (rows ! i) = freq ! (find_s21_peaks mag_db (MIN_PEAK_DB cfg) ! i) \<and>
            loss_tangent_peak freq mag_db (find_s21_peaks mag_db (MIN_PEAK_DB cfg) ! i) =
              Inr (col_loss_tan (rows ! i)) \<and>
            effective_permittivity [int i + 1]
                [freq ! (find_s21_peaks mag_db (MIN_PEAK_DB cfg) ! i)] (ring_length cfg) =
              [col_eps_eff (rows ! i)] \<and>
            microstrip_eps_r [col_eps_eff (rows ! i)] (SUBSTRATE_H_MM cfg / 1000)
              (TRACE_W_MM cfg / 1000) = Inr [col_eps_r (rows ! i)])))"
proof (intro conjI impI)
  assume r: "\<forall>p \<in> set peaks. p < length mag_db"
  from calculate_loss_tangent_entries[OF r assms]
  obtain ls where ls: "calculate_loss_tangent freq mag_db peaks = Inr ls"
      "length ls = length peaks"
      "\<forall>i < length peaks. loss_tangent_peak freq mag_db (peaks ! i) = Inr (ls ! i)"
    by blast
  have "loss_tangent_peak freq mag_db (peaks ! i) = Inr (ls ! i) \<and>
        (bandwidth freq mag_db (peaks ! i) \<le> 0 \<longrightarrow> ls ! i = NaN)"
    if i: "i < length peaks" for i
  proof -
    have p: "peaks ! i < length mag_db" using r i by simp
    have v: "loss_tangent_peak freq mag_db (peaks ! i) = Inr (ls ! i)" using ls(3) i by simp
    show ?thesis using v loss_tangent_peak_nan[OF p assms] by auto
  qed
  with ls(1,2)
  show "\<exists>ls. calculate_loss_tangent freq mag_db peaks = Inr ls \<and> length ls = length peaks \<and>
         (\<forall>i < length peaks.
            loss_tangent_peak freq mag_db (peaks ! i) = Inr (ls ! i) \<and>
            (bandwidth freq mag_db (peaks ! i) \<le> 0 \<longrightarrow> ls ! i = NaN))"
    by blast
next
  let ?found = "find_s21_peaks mag_db (MIN_PEAK_DB cfg)"
  assume a: "TRACE_W_MM cfg \<noteq> 0 \<and> ?found \<noteq> []"
  then have w: "TRACE_W_MM cfg \<noteq> 0" and ne: "?found \<noteq> []" by simp_all
  from main_rows[OF assms w refl ne]
  obtain rows where rows: "main cfg freq mag_db = Inr rows" "length rows = length ?found"
    and each: "\<forall>i < length ?found.
        col_mode_n (rows ! i) = int i + 1 \<and>
        col_freq_Hz (rows ! i) = freq ! (?found ! i) \<and>
        loss_tangent_peak freq mag_db (?found ! i) = Inr (col_loss_tan (rows ! i)) \<and>
        effective_permittivity [int i + 1] [freq ! (?found ! i)] (ring_length cfg) =
          [col_eps_eff (rows ! i)] \<and>
        microstrip_eps_r [col_eps_eff (rows ! i)] (SUBSTRATE_H_MM cfg / 1000)
          (TRACE_W_MM cfg / 1000) = Inr [col_eps_r (rows ! i)]"
    by blast
  have nan: "bandwidth freq mag_db (?found ! i) \<le> 0 \<longrightarrow> col_loss_tan (rows ! i) = NaN"
    if i: "i < length ?found" for i
  proof
    assume bw: "bandwidth freq mag_db (?found ! i) \<le> 0"
    have "?found ! i \<in> set ?found" using i by simp
    then have "?found ! i + 1 < length mag_db" by (rule find_s21_peaks_in_range)
    then have p: "?found ! i < length mag_db" by simp
    from loss_tangent_peak_nan[OF p assms bw] each i
    show "col_loss_tan (rows ! i) = NaN" by simp
  qed
  show "\<exists>rows. main cfg freq mag_db = Inr rows \<and> length rows = length ?found \<and>
         (\<forall>i < length ?found.
            (bandwidth freq mag_db (?found ! i) \<le> 0 \<longrightarrow> col_loss_tan (rows ! i) = NaN) \<and>
            col_mode_n (rows ! i) = int i + 1 \<and>
            col_freq_Hz (rows ! i) = freq ! (?found ! i) \<and>
            loss_tangent_peak freq mag_db (?found ! i) = Inr (col_loss_tan (rows ! i)) \<and>
            effective_permittivity [int i + 1] [freq ! (?found ! i)] (ring_length cfg) =
              [col_eps_eff (rows ! i)] \<and>
            microstrip_eps_r [col_eps_eff (rows ! i)] (SUBSTRATE_H_MM cfg / 1000)
              (TRACE_W_MM cfg / 1000) = Inr [col_eps_r (rows ! i)])"
    using rows each nan by blast
qed

lemma peaks_two: "local_maxima_from [0, 10, 0, 10, 0] (Suc 0) = [Suc 0, 3]"
  by (simp add: local_maxima_from.simps skip_equal.simps)

lemma median_two: "median [0, 10, 0, 10, 0] = Fin 0"
  by (simp add: median_def)

lemma find_two: "find_s21_peaks [0, 10, 0, 10, 0] 5 = [Suc 0, 3]"
  by (simp add: find_s21_peaks_def find_peaks_def median_two peaks_two)

lemma left_two_1: "search_left [0, 10, 0, 10, 0] 7 (Suc 0) = 0"
  by (simp add: search_left.simps)

lemma right_two_1: "search_right [0, 10, 0, 10, 0] 7 (Suc 0) = 2"
  by (simp add: search_right.simps)

lemma left_two_3: "search_left [0, 10, 0, 10, 0] 7 3 = 2"
  by (simp add: search_left.simps)

lemma right_two_3: "search_right [0, 10, 0, 10, 0] 7 3 = 4"
  by (simp add: search_right.simps)

lemma bandwidth_two_1: "bandwidth [1, 1, 1, 2, 3] [0, 10, 0, 10, 0] (Suc 0) = 0"
  by (simp add: bandwidth_def left_two_1 right_two_1)

lemma loss_two_3: "loss_tangent_peak [1, 1, 1, 2, 3] [0, 10, 0, 10, 0] 3 = Inr (Fin 1)"
  using loss_tangent_peak_in_range[of 3 "[0, 10, 0, 10, 0]" "[1, 1, 1, 2, 3]"]
  by (simp add: left_two_3 right_two_3)

theorem undefined_loss_tangent_recoverable_witness:
  "length [1, 1, 1, 2, 3 :: real] = length [0, 10, 0, 10, 0 :: real] \<and>
   bandwidth [1, 1, 1, 2, 3] [0, 10, 0, 10, 0] 1 \<le> 0 \<and>
   calculate_loss_tangent [1, 1, 1, 2, 3] [0, 10, 0, 10, 0] [1, 3] = Inr [NaN, Fin 1] \<and>
   find_s21_peaks [0, 10, 0, 10, 0] 5 = [1, 3] \<and>
   (\<exists>rows. main \<lparr>RING_LENGTH_MM = 100, SUBSTRATE_H_MM = 1, TRACE_W_MM = 4,
        MIN_PEAK_DB = 5, CALIBRATE_L = False, CALIBRATION_FREQ_HZ = 1,
        CALIBRATION_EPSILON = 4, CALIBRATION_MODE_N = 1\<rparr>
        [1, 1, 1, 2, 3] [0, 10, 0, 10, 0] = Inr rows \<and> length rows = 2 \<and>
      col_loss_tan (rows ! 0) = NaN \<and> col_loss_tan (rows ! 1) = Fin 1 \<and>
      col_mode_n (rows ! 0) = 1 \<and> col_mode_n (rows ! 1) = 2)"
proof -
  let ?cfg = "\<lparr>RING_LENGTH_MM = 100, SUBSTRATE_H_MM = 1, TRACE_W_MM = 4,
        MIN_PEAK_DB = 5, CALIBRATE_L = False, CALIBRATION_FREQ_HZ = 1,
        CALIBRATION_EPSILON = 4, CALIBRATION_MODE_N = 1\<rparr>"
  let ?f = "[1, 1, 1, 2, 3 :: real]" and ?m = "[0, 10, 0, 10, 0 :: real]"
  have len: "length ?f = length ?m" by simp
  note t = undefined_loss_tangent_recoverable[OF len, of "[1, 3]" ?cfg]
  have bw: "bandwidth ?f ?m 1 \<le> 0" using bandwidth_two_1 by simp
  have found: "find_s21_peaks ?m (MIN_PEAK_DB ?cfg) = [1, 3]" using find_two by simp
  have "\<forall>p \<in> set [1, 3 :: nat]. p < length ?m" by simp
  with t obtain ls where ls: "calculate_loss_tangent ?f ?m [1, 3] = Inr ls"
      "length ls = length [1, 3 :: nat]"
      "\<forall>i < length [1, 3 :: nat]. loss_tangent_peak ?f ?m ([1, 3] ! i) = Inr (ls ! i) \<and>
            (bandwidth ?f ?m ([1, 3] ! i) \<le> 0 \<longrightarrow> ls ! i = NaN)"
    by blast
  from ls(3)[THEN spec, of 0] have "bandwidth ?f ?m ([1, 3] ! 0) \<le> 0 \<longrightarrow> ls ! 0 = NaN" by simp
  with bw have l0: "ls ! 0 = NaN" by simp
  from ls(3)[THEN spec, of 1] have "loss_tangent_peak ?f ?m ([1, 3] ! 1) = Inr (ls ! 1)" by simp
  with loss_two_3 have l1: "ls ! 1 = Fin 1" by simp
  from ls(2) l0 l1 have "ls = [NaN, Fin 1]"
    by (cases ls; cases "tl ls") auto
  with ls(1) have c: "calculate_loss_tangent ?f ?m [1, 3] = Inr [NaN, Fin 1]" by simp
  have "TRACE_W_MM ?cfg \<noteq> 0 \<and> find_s21_peaks ?m (MIN_PEAK_DB ?cfg) \<noteq> []"
    using found by simp
  with t obtain rows where rows: "main ?cfg ?f ?m = Inr rows"
      "length rows = length (find_s21_peaks ?m (MIN_PEAK_DB ?cfg))"
      "\<forall>i < length (find_s21_peaks ?m (MIN_PEAK_DB ?cfg)).
            (bandwidth ?f ?m (find_s21_peaks ?m (MIN_PEAK_DB ?cfg) ! i) \<le> 0 \<longrightarrow>
               col_loss_tan (rows ! i) = NaN) \<and>
            col_mode_n (rows ! i) = int i + 1 \<and>
            col_freq_Hz (rows ! i) = ?f ! (find_s21_peaks ?m (MIN_PEAK_DB ?cfg) ! i) \<and>
            loss_tangent_peak ?f ?m (find_s21_peaks ?m (MIN_PEAK_DB ?cfg) ! i) =
              Inr (col_loss_tan (rows ! i)) \<and>
            effective_permittivity [int i + 1]
                [?f ! (find_s21_peaks ?m (MIN_PEAK_DB ?cfg) ! i)] (ring_length ?cfg) =
              [col_eps_eff (rows ! i)] \<and>
            microstrip_eps_r [col_eps_eff (rows ! i)] (SUBSTRATE_H_MM ?cfg / 1000)
              (TRACE_W_MM ?cfg / 1000) = Inr [col_eps_r (rows ! i)]"
    by blast
  have n: "length rows = 2" using rows(2) found by simp
  from rows(3)[THEN spec, of 0] have r0: "(bandwidth ?f ?m ([1, 3] ! 0) \<le> 0 \<longrightarrow> col_loss_tan (rows ! 0) = NaN) \<and>
      col_mode_n (rows ! 0) = 1"
    unfolding found by simp
  from rows(3)[THEN spec, of 1] have r1: "loss_tangent_peak ?f ?m ([1, 3] ! 1) = Inr (col_loss_tan (rows ! 1)) \<and>
      col_mode_n (rows ! 1) = 2"
    unfolding found by simp
  from r0 bw have a0: "col_loss_tan (rows ! 0) = NaN" "col_mode_n (rows ! 0) = 1" by simp_all
  from r1 loss_two_3 have a1: "col_loss_tan (rows ! 1) = Fin 1" "col_mode_n (rows ! 1) = 2"
    by simp_all
  have "\<exists>rows. main ?cfg ?f ?m = Inr rows \<and> length rows = 2 \<and>
      col_loss_tan (rows ! 0) = NaN \<and> col_loss_tan (rows ! 1) = Fin 1 \<and>
      col_mode_n (rows ! 0) = 1 \<and> col_mode_n (rows ! 1) = 2"
    using rows(1) n a0 a1 by blast
  then show ?thesis using len bw c found by simp
qed

section \<open>Calibration\<close>






end
